theory Spec2Isabelle
  imports Main
begin

section \<open>The line log of \<^verbatim>\<open>src/log.c\<close>\<close>

text \<open>
  A shallow embedding of \<^verbatim>\<open>log_init\<close>, \<^verbatim>\<open>log_write\<close>, \<^verbatim>\<open>log_count_lines\<close>,
  \<^verbatim>\<open>log_close\<close> and the two newline helpers of \<^verbatim>\<open>src/log.c\<close>.

  \<^item> A C string is the list of its characters before the terminating NUL, so
    \<^verbatim>\<open>strlen\<close> is \<open>length\<close>, and storing NUL at index \<open>i\<close> of a string cuts it
    down to its first \<open>i\<close> characters.
  \<^item> C's \<^verbatim>\<open>int\<close> is HOL's \<open>int\<close>. The counters of the log stay far from
    \<open>2^31\<close> unless the file holds that many lines; signed overflow is undefined in C
    and is outside this model.
  \<^item> \<^verbatim>\<open>log.h\<close> is not among the sources. Its two macros are parameters of the
    functions that use them, written as in the code: \<open>MAX_FILENAME_LENGTH\<close> and
    \<open>BUFFER_SIZE\<close>. Its struct \<^verbatim>\<open>log_t\<close> is the record of the five fields the code
    uses.
  \<^item> A pointer that may be \<^verbatim>\<open>NULL\<close> is an \<open>option\<close>.
  \<^item> What the C library decides (whether \<^verbatim>\<open>malloc\<close>, \<^verbatim>\<open>fopen\<close>,
    \<^verbatim>\<open>pthread_mutex_init\<close> and \<^verbatim>\<open>pthread_mutex_lock\<close> succeed, what the clock
    reads, how \<^verbatim>\<open>vsnprintf\<close> renders a template) is an input of the model.
\<close>

subsection \<open>Files, streams and the calls of the C library\<close>

abbreviation newline :: char where
  "newline \<equiv> CHR 0x0A"

type_synonym path = string

datatype fmode = Mode_w | Mode_a_plus

text \<open>The calls that name a path, in the order the program makes them.\<close>

datatype fs_call = Fopen path fmode | Remove path | Rename path path

text \<open>
  The file system maps a path to the content of the file it names; a relative path is
  resolved against the working directory of the process, so a path is its own key.
  Two paths name two files (no links, no second spelling of a path), and nothing but
  the calls below changes a file. \<open>calls\<close> is the trace of the calls made so far.

  The calls whose result \<^verbatim>\<open>log.c\<close> discards (\<^verbatim>\<open>fprintf\<close>, \<^verbatim>\<open>fflush\<close>,
  \<^verbatim>\<open>fsync\<close>, \<^verbatim>\<open>fclose\<close>, \<^verbatim>\<open>remove\<close>, \<^verbatim>\<open>rename\<close>, the mutex calls of
  \<^verbatim>\<open>log_write\<close>) do what they are called for; the calls it checks succeed or fail as
  the model's input says.
\<close>

record world =
  files :: "path \<rightharpoonup> string"
  calls :: "fs_call list"

text \<open>An open \<^verbatim>\<open>FILE *\<close>: the path it was opened on and its read position.\<close>

record stream =
  spath :: path
  spos :: nat

definition content :: "world \<Rightarrow> path \<Rightarrow> string" where
  "content w p = (case files w p of None \<Rightarrow> [] | Some c \<Rightarrow> c)"

text \<open>
  \<^verbatim>\<open>fopen(p, "w")\<close> creates the file or empties it; \<^verbatim>\<open>fopen(p, "a+")\<close> creates it
  when it is absent and leaves its content alone. Both read from position 0. A failed
  call returns \<^verbatim>\<open>NULL\<close> and touches no file. \<open>ok\<close> says whether the call succeeds.
\<close>

definition fopen :: "bool \<Rightarrow> path \<Rightarrow> fmode \<Rightarrow> world \<Rightarrow> stream option \<times> world" where
  "fopen ok p m w =
     (let w' = w\<lparr>calls := calls w @ [Fopen p m]\<rparr> in
      if \<not> ok then (None, w')
      else (Some \<lparr>spath = p, spos = 0\<rparr>,
            w'\<lparr>files := (files w')(p \<mapsto> (case m of Mode_w \<Rightarrow> [] | Mode_a_plus \<Rightarrow> content w' p))\<rparr>))"

definition rewind :: "stream \<Rightarrow> stream" where
  "rewind f = f\<lparr>spos := 0\<rparr>"

text \<open>
  Writing to a stream opened with \<^verbatim>\<open>"a+"\<close> appends to the file, wherever the read
  position is, and leaves the position at the end of the file.
\<close>

definition fprintf_append :: "stream \<Rightarrow> string \<Rightarrow> world \<Rightarrow> stream \<times> world" where
  "fprintf_append f s w =
     (let c = content w (spath f) @ s in
      (f\<lparr>spos := length c\<rparr>, w\<lparr>files := (files w)(spath f \<mapsto> c)\<rparr>))"

text \<open>\<^verbatim>\<open>remove\<close> unlinks the path; on a path that names no file it fails and changes nothing.\<close>

definition fs_remove :: "path \<Rightarrow> world \<Rightarrow> world" where
  "fs_remove p w = w\<lparr>files := (files w)(p := None), calls := calls w @ [Remove p]\<rparr>"

text \<open>
  \<^verbatim>\<open>rename\<close> moves the file of \<open>old\<close> to \<open>new\<close>, replacing what \<open>new\<close> named. With
  no file at \<open>old\<close> it fails, and with \<open>old = new\<close> it does nothing.
\<close>

definition fs_rename :: "path \<Rightarrow> path \<Rightarrow> world \<Rightarrow> world" where
  "fs_rename old new w =
     (let w' = w\<lparr>calls := calls w @ [Rename old new]\<rparr> in
      case files w old of
        None \<Rightarrow> w'
      | Some c \<Rightarrow> if old = new then w' else w'\<lparr>files := (files w')(new \<mapsto> c, old := None)\<rparr>)"

text \<open>
  \<^verbatim>\<open>fgets(line, n, f)\<close> reads at most \<open>n - 1\<close> characters and stops after a newline.
  \<open>read_line k s\<close> is what it stores when \<open>s\<close> is the unread rest of the file and
  \<open>k = n - 1\<close>; at the end of the file \<^verbatim>\<open>fgets\<close> returns \<^verbatim>\<open>NULL\<close>. The result
  pairs the line with the rest still unread.
\<close>

fun read_line :: "nat \<Rightarrow> string \<Rightarrow> string" where
  "read_line 0 s = []"
| "read_line (Suc k) [] = []"
| "read_line (Suc k) (c # cs) = (if c = newline then [c] else c # read_line k cs)"

definition fgets :: "nat \<Rightarrow> string \<Rightarrow> (string \<times> string) option" where
  "fgets n s =
     (if s = [] then None
      else let line = read_line (n - 1) s in Some (line, drop (length line) s))"

lemma read_line_length: "length (read_line k s) \<le> length s"
  by (induction k s rule: read_line.induct) auto

lemma read_line_nonempty: "0 < k \<Longrightarrow> s \<noteq> [] \<Longrightarrow> read_line k s \<noteq> []"
  by (cases k; cases s) auto

lemma fgets_shorter:
  assumes "fgets n s = Some (line, rest)" and "2 \<le> n"
  shows "length rest < length s"
proof -
  from assms have ne: "s \<noteq> []" and l: "line = read_line (n - 1) s"
    and r: "rest = drop (length line) s"
    by (auto simp: fgets_def Let_def split: if_splits)
  from assms(2) ne have "line \<noteq> []"
    unfolding l by (intro read_line_nonempty) auto
  with ne show ?thesis unfolding r by (cases s) auto
qed

subsection \<open>The two read loops\<close>

text \<open>
  What stops a call from returning: a \<^verbatim>\<open>NULL\<close> pointer is dereferenced, the calling
  thread locks a mutex it already holds, or a read loop makes no progress. The last
  happens only for \<open>BUFFER_SIZE < 2\<close>: \<^verbatim>\<open>fgets\<close> with a buffer of one byte stores
  the empty string and consumes nothing, so the loop never reaches the end of the file
  (and an array of no bytes is not C).
\<close>

datatype fault = Null_deref | Deadlock | No_progress

text \<open>
  Lines 224 to 230: \<^verbatim>\<open>while (fgets(line, sizeof(line), log->file) != NULL) lines++;\<close>
  on the unread rest of the file. \<open>None\<close>: the loop does not end.
\<close>

function count_loop :: "nat \<Rightarrow> string \<Rightarrow> int \<Rightarrow> int option" where
  "count_loop BUFFER_SIZE rest lines =
     (if BUFFER_SIZE < 2 then None
      else case fgets BUFFER_SIZE rest of
             None \<Rightarrow> Some lines
           | Some (line, rest') \<Rightarrow> count_loop BUFFER_SIZE rest' (lines + 1))"
  by pat_completeness auto
termination
  by (relation "measure (\<lambda>(n, rest, lines). length rest)") (auto simp: fgets_shorter)

text \<open>
  Lines 88 to 93 and 185 to 190: each chunk \<^verbatim>\<open>fgets\<close> returns is written to the
  temporary file when the counter \<open>i\<close> has reached \<open>skip\<close> (\<^verbatim>\<open>lines - truncate_at\<close>
  in \<^verbatim>\<open>log_init\<close>, \<^verbatim>\<open>log->cached_lines - log->truncate_at\<close> in \<^verbatim>\<open>log_write\<close>).
  \<open>tmp\<close> is what the temporary file holds so far.
\<close>

function copy_loop :: "nat \<Rightarrow> string \<Rightarrow> int \<Rightarrow> int \<Rightarrow> string \<Rightarrow> string option" where
  "copy_loop BUFFER_SIZE rest i skip tmp =
     (if BUFFER_SIZE < 2 then None
      else case fgets BUFFER_SIZE rest of
             None \<Rightarrow> Some tmp
           | Some (line, rest') \<Rightarrow>
               copy_loop BUFFER_SIZE rest' (i + 1) skip (if i \<ge> skip then tmp @ line else tmp))"
  by pat_completeness auto
termination
  by (relation "measure (\<lambda>(n, rest, i, skip, tmp). length rest)") (auto simp: fgets_shorter)

declare count_loop.simps [simp del] copy_loop.simps [simp del]

subsection \<open>The log\<close>

text \<open>
  \<^verbatim>\<open>log_t\<close>, from the fields \<^verbatim>\<open>log.c\<close> uses. \<open>lock\<close> is the mutex: \<open>True\<close> while
  it is held. The field \<^verbatim>\<open>file\<close> is \<open>file_ptr\<close> here.
\<close>

record log_t =
  file_ptr :: "stream option"
  lock :: bool
  truncate_at :: int
  filename :: path
  cached_lines :: int

text \<open>
  What the C library answers during one call: whether \<^verbatim>\<open>malloc\<close>, the first
  \<^verbatim>\<open>fopen\<close> of the log, \<^verbatim>\<open>pthread_mutex_init\<close>, \<^verbatim>\<open>pthread_mutex_lock\<close>, the
  \<^verbatim>\<open>fopen\<close> of the temporary file and the \<^verbatim>\<open>fopen\<close> of the log after the swap
  succeed, and the value \<^verbatim>\<open>malloc\<close> leaves in \<^verbatim>\<open>cached_lines\<close>, which
  \<^verbatim>\<open>log_init\<close> assigns last.
\<close>

record env =
  malloc_ok :: bool
  fopen_ok :: bool
  mutex_init_ok :: bool
  mutex_lock_ok :: bool
  tmp_ok :: bool
  reopen_ok :: bool
  junk :: int

text \<open>
  \<^verbatim>\<open>log_count_lines\<close>, lines 218 to 233. The handle is dereferenced unchecked. The
  result pairs the count with the log, whose stream has been read to the end.
\<close>

definition log_count_lines :: "nat \<Rightarrow> world \<Rightarrow> log_t option \<Rightarrow> fault + (int \<times> log_t)" where
  "log_count_lines BUFFER_SIZE w log =
     (case log of
        None \<Rightarrow> Inl Null_deref
      | Some l \<Rightarrow>
          (case file_ptr l of
             None \<Rightarrow> Inr (- 1, l)
           | Some f \<Rightarrow>
               (let f0 = rewind f;
                    c = content w (spath f0) in
                case count_loop BUFFER_SIZE (drop (spos f0) c) 0 of
                  None \<Rightarrow> Inl No_progress
                | Some lines \<Rightarrow> Inr (lines, l\<lparr>file_ptr := Some (f0\<lparr>spos := length c\<rparr>)\<rparr>))))"

text \<open>
  Lines 84 to 102 of \<^verbatim>\<open>log_init\<close> and 181 to 199 of \<^verbatim>\<open>log_write\<close>, the same code
  in both: rewind the log, copy it from chunk \<open>skip\<close> on into the temporary file,
  close both streams, remove the log and rename the temporary file to its name. The
  temporary stream is buffered: the file receives what was written when it is closed.
\<close>

definition swap_files :: "nat \<Rightarrow> stream \<Rightarrow> stream \<Rightarrow> path \<Rightarrow> int \<Rightarrow> world \<Rightarrow> world option" where
  "swap_files BUFFER_SIZE f tmp fname skip w =
     (let f0 = rewind f in
      case copy_loop BUFFER_SIZE (drop (spos f0) (content w (spath f0))) 0 skip [] of
        None \<Rightarrow> None
      | Some out \<Rightarrow>
          (let w1 = w\<lparr>files := (files w)(spath tmp \<mapsto> content w (spath tmp) @ out)\<rparr>;
               w2 = fs_remove fname w1
           in Some (fs_rename ''tmp.log'' fname w2)))"

text \<open>
  \<^verbatim>\<open>log_init\<close>, lines 21 to 132. The result is the return value, the handle left in
  \<^verbatim>\<open>*log\<close> and the world after the call.
\<close>

definition log_init ::
  "nat \<Rightarrow> nat \<Rightarrow> env \<Rightarrow> path \<Rightarrow> int \<Rightarrow> world \<Rightarrow> fault + (int \<times> log_t option \<times> world)" where
  "log_init MAX_FILENAME_LENGTH BUFFER_SIZE e fname trunc w =
     (if \<not> malloc_ok e then Inr (- 1, None, w)
      else if length fname \<ge> MAX_FILENAME_LENGTH then Inr (- 1, None, w)
      else case fopen (fopen_ok e) fname Mode_a_plus w of
        (None, w1) \<Rightarrow> Inr (- 1, None, w1)
      | (Some f, w1) \<Rightarrow>
          if \<not> mutex_init_ok e then Inr (- 1, None, w1)
          else
            let l = \<lparr>file_ptr = Some f, lock = False, truncate_at = trunc, filename = fname,
                     cached_lines = junk e\<rparr>
            in
            if trunc \<noteq> - 1 then
              if \<not> mutex_lock_ok e then Inr (- 1, None, w1)
              else
                (case log_count_lines BUFFER_SIZE w1 (Some (l\<lparr>lock := True\<rparr>)) of
                   Inl x \<Rightarrow> Inl x
                 | Inr (lines, l1) \<Rightarrow>
                     if lines > trunc then
                       (case fopen (tmp_ok e) ''tmp.log'' Mode_w w1 of
                          (None, w2) \<Rightarrow> Inr (- 1, None, w2)
                        | (Some tmp, w2) \<Rightarrow>
                            (case file_ptr l1 of
                               None \<Rightarrow> Inl Null_deref
                             | Some f1 \<Rightarrow>
                            (case swap_files BUFFER_SIZE f1 tmp (filename l1) (lines - trunc) w2 of
                               None \<Rightarrow> Inl No_progress
                             | Some w3 \<Rightarrow>
                                 (case fopen (reopen_ok e) (filename l1) Mode_a_plus w3 of
                                    (None, w4) \<Rightarrow> Inr (- 1, None, w4)
                                  | (Some f', w4) \<Rightarrow>
                                      Inr (0, Some (l1\<lparr>file_ptr := Some f', cached_lines := trunc,
                                                       lock := False\<rparr>), w4)))))
                     else Inr (0, Some (l1\<lparr>cached_lines := lines, lock := False\<rparr>), w1))
            else
              (case log_count_lines BUFFER_SIZE w1 (Some l) of
                 Inl x \<Rightarrow> Inl x
               | Inr (lines, l1) \<Rightarrow> Inr (0, Some (l1\<lparr>cached_lines := lines\<rparr>), w1)))"

text \<open>
  The two helpers, lines 253 to 270. \<^verbatim>\<open>str[length - 1] = '\0'\<close> ends the string
  one character earlier.
\<close>

definition if_end_with_newline :: "string \<Rightarrow> int" where
  "if_end_with_newline str =
     (if length str > 0 \<and> str ! (length str - 1) = newline then 1 else 0)"

definition remove_newline_from_end :: "string \<Rightarrow> string" where
  "remove_newline_from_end str =
     (if length str > 0 \<and> str ! (length str - 1) = newline
      then take (length str - 1) str else str)"

text \<open>
  Lines 144 to 164. \<open>trim_format\<close> is the template after lines 145 to 148.
  \<^verbatim>\<open>vsnprintf(buffer, sizeof(buffer), format, args)\<close> leaves in \<^verbatim>\<open>buffer\<close> at most
  \<open>BUFFER_SIZE - 1\<close> characters of the rendering \<open>vfmt format args\<close>, where \<open>vfmt\<close>
  is how the C library renders a template with its arguments. \<open>message\<close> is the buffer
  in terms of the template the caller passed, and \<open>log_line\<close> the text
  \<^verbatim>\<open>fprintf(log->file, "[%s] %s\n", time_str, buffer)\<close> writes.
\<close>

definition trim_format :: "string \<Rightarrow> string" where
  "trim_format format =
     (if if_end_with_newline format \<noteq> 0 then remove_newline_from_end format else format)"

definition vsnprintf :: "nat \<Rightarrow> (string \<Rightarrow> 'a \<Rightarrow> string) \<Rightarrow> string \<Rightarrow> 'a \<Rightarrow> string" where
  "vsnprintf n vfmt format args = take (n - 1) (vfmt format args)"

definition message :: "nat \<Rightarrow> (string \<Rightarrow> 'a \<Rightarrow> string) \<Rightarrow> string \<Rightarrow> 'a \<Rightarrow> string" where
  "message BUFFER_SIZE vfmt format args = vsnprintf BUFFER_SIZE vfmt (trim_format format) args"

definition log_line :: "string \<Rightarrow> string \<Rightarrow> string" where
  "log_line time_str buffer = ''['' @ time_str @ ''] '' @ buffer @ [newline]"

text \<open>
  \<^verbatim>\<open>log_write\<close>, lines 134 to 216. \<open>time_str\<close> is what \<^verbatim>\<open>strftime\<close> wrote. The
  result is the return value, the log the handle points to, the caller's template
  after the call and the world after the call. \<^verbatim>\<open>pthread_mutex_lock\<close> on a mutex the
  caller holds does not return.
\<close>

definition log_write ::
  "nat \<Rightarrow> (string \<Rightarrow> 'a \<Rightarrow> string) \<Rightarrow> env \<Rightarrow> string \<Rightarrow> log_t option \<Rightarrow> string \<Rightarrow> 'a \<Rightarrow> world
     \<Rightarrow> fault + (int \<times> log_t option \<times> string \<times> world)" where
  "log_write BUFFER_SIZE vfmt e time_str log format args w =
     (case log of
        None \<Rightarrow> Inr (- 1, None, format, w)
      | Some l \<Rightarrow>
          (case file_ptr l of
             None \<Rightarrow> Inr (- 1, Some l, format, w)
           | Some f \<Rightarrow>
               if lock l then Inl Deadlock
               else
                 let format' = trim_format format;
                     buffer = vsnprintf BUFFER_SIZE vfmt format' args;
                     (f1, w1) = fprintf_append f (log_line time_str buffer) w;
                     l1 = l\<lparr>file_ptr := Some f1, lock := True,
                            cached_lines := (if cached_lines l \<noteq> - 1 then cached_lines l + 1
                                             else cached_lines l)\<rparr>
                 in
                 if truncate_at l1 \<noteq> - 1 \<and> cached_lines l1 > truncate_at l1 then
                   (case fopen (tmp_ok e) ''tmp.log'' Mode_w w1 of
                      (None, w2) \<Rightarrow> Inr (- 1, Some (l1\<lparr>lock := False\<rparr>), format', w2)
                    | (Some tmp, w2) \<Rightarrow>
                        (case swap_files BUFFER_SIZE f1 tmp (filename l1)
                                (cached_lines l1 - truncate_at l1) w2 of
                           None \<Rightarrow> Inl No_progress
                         | Some w3 \<Rightarrow>
                             (case fopen (reopen_ok e) (filename l1) Mode_a_plus w3 of
                                (None, w4) \<Rightarrow>
                                  Inr (- 1, Some (l1\<lparr>file_ptr := None, lock := False\<rparr>), format', w4)
                              | (Some f', w4) \<Rightarrow>
                                  Inr (0, Some (l1\<lparr>file_ptr := Some f',
                                                   cached_lines := truncate_at l1,
                                                   lock := False\<rparr>), format', w4))))
                 else Inr (0, Some (l1\<lparr>lock := False\<rparr>), format', w1)))"

text \<open>
  \<^verbatim>\<open>log_close\<close>, lines 235 to 251: the return value and what the handle points to
  after the call (\<open>None\<close>: freed).
\<close>

definition log_close :: "log_t option \<Rightarrow> int \<times> log_t option" where
  "log_close log =
     (case log of
        None \<Rightarrow> (- 1, None)
      | Some l \<Rightarrow> (case file_ptr l of None \<Rightarrow> (- 1, Some l) | Some f \<Rightarrow> (0, None)))"

subsection \<open>Notions the claims use\<close>



text \<open>The calls of a whole truncation pass on the log \<open>fname\<close>.\<close>

definition pass_calls :: "path \<Rightarrow> fs_call list" where
  "pass_calls fname =
     [Fopen ''tmp.log'' Mode_w, Remove fname, Rename ''tmp.log'' fname, Fopen fname Mode_a_plus]"

text \<open>
  The lines of a text: each ends with its newline, and a last one may be left without.
\<close>

fun split_lines :: "string \<Rightarrow> string list" where
  "split_lines [] = []"
| "split_lines (c # cs) =
     (if c = newline then [c] # split_lines cs
      else case split_lines cs of [] \<Rightarrow> [[c]] | l # ls \<Rightarrow> (c # l) # ls)"

text \<open>A line: no newline but the one that ends it.\<close>

definition is_line :: "string \<Rightarrow> bool" where
  "is_line r = (r \<noteq> [] \<and> last r = newline \<and> newline \<notin> set (butlast r))"

subsection \<open>A caller that writes one record after another\<close>

text \<open>
  One call of \<^verbatim>\<open>log_write\<close>: what the C library answers during it, what the clock
  reads, the template and the arguments. \<open>log_writes\<close> makes the calls in order on the
  same handle, whatever each returns. \<open>call_line\<close> is the line a call writes, and
  \<open>call_fits\<close> says that its C library opens every file, that neither the time nor the
  message holds a newline, and that the whole line, terminator included, is at most
  \<open>BUFFER_SIZE - 1\<close> characters, which is what one \<^verbatim>\<open>fgets\<close> of the truncation pass
  reads.
\<close>

type_synonym 'a call = "env \<times> string \<times> string \<times> 'a"

fun log_writes ::
  "nat \<Rightarrow> (string \<Rightarrow> 'a \<Rightarrow> string) \<Rightarrow> log_t option \<Rightarrow> 'a call list \<Rightarrow> world
     \<Rightarrow> fault + (log_t option \<times> world)" where
  "log_writes BUFFER_SIZE vfmt log [] w = Inr (log, w)"
| "log_writes BUFFER_SIZE vfmt log ((e, time_str, format, args) # cs) w =
     (case log_write BUFFER_SIZE vfmt e time_str log format args w of
        Inl x \<Rightarrow> Inl x
      | Inr (rc, log', format', w') \<Rightarrow> log_writes BUFFER_SIZE vfmt log' cs w')"

definition call_line :: "nat \<Rightarrow> (string \<Rightarrow> 'a \<Rightarrow> string) \<Rightarrow> 'a call \<Rightarrow> string" where
  "call_line BUFFER_SIZE vfmt c =
     (case c of (e, time_str, format, args) \<Rightarrow>
        log_line time_str (message BUFFER_SIZE vfmt format args))"

definition call_fits :: "nat \<Rightarrow> (string \<Rightarrow> 'a \<Rightarrow> string) \<Rightarrow> 'a call \<Rightarrow> bool" where
  "call_fits BUFFER_SIZE vfmt c =
     (case c of (e, time_str, format, args) \<Rightarrow>
        tmp_ok e \<and> reopen_ok e \<and> newline \<notin> set time_str
        \<and> newline \<notin> set (message BUFFER_SIZE vfmt format args)
        \<and> length (log_line time_str (message BUFFER_SIZE vfmt format args)) \<le> BUFFER_SIZE - 1)"

text \<open>
  The state between two writes of a log bounded by \<open>K\<close>: the file holds the lines
  \<open>rs\<close>, at most \<open>K\<close> of them, each short enough for one \<^verbatim>\<open>fgets\<close>; the handle is
  open on the file, unlocked, and its counter is their number.
\<close>

definition keeps :: "nat \<Rightarrow> nat \<Rightarrow> path \<Rightarrow> string list \<Rightarrow> log_t \<Rightarrow> world \<Rightarrow> bool" where
  "keeps BUFFER_SIZE K fname rs l w =
     ((\<exists>p. file_ptr l = Some \<lparr>spath = fname, spos = p\<rparr>) \<and> \<not> lock l
      \<and> truncate_at l = int K \<and> filename l = fname \<and> cached_lines l = int (length rs)
      \<and> length rs \<le> K \<and> files w fname = Some (concat rs)
      \<and> (\<forall>r \<in> set rs. is_line r \<and> length r \<le> BUFFER_SIZE - 1))"

subsection \<open>Inputs of the examples\<close>

text \<open>
  A C library where every call succeeds, a file system with no file, one where
  \<^verbatim>\<open>a.log\<close> holds two lines, an open log on \<^verbatim>\<open>a.log\<close>, a file system and an
  open log with the log in a directory \<^verbatim>\<open>logs/\<close>, and \<^verbatim>\<open>vsnprintf\<close> for a
  template without conversion specifications and no variadic argument: it renders the
  template itself.
\<close>

definition env_ok :: env where
  "env_ok = \<lparr>malloc_ok = True, fopen_ok = True, mutex_init_ok = True, mutex_lock_ok = True,
             tmp_ok = True, reopen_ok = True, junk = 0\<rparr>"

definition no_files :: world where
  "no_files = \<lparr>files = Map.empty, calls = []\<rparr>"

definition two_lines :: world where
  "two_lines = \<lparr>files = [''a.log'' \<mapsto> ''a\<newline>b\<newline>''], calls = []\<rparr>"

definition open_log :: "int \<Rightarrow> int \<Rightarrow> log_t" where
  "open_log trunc cached =
     \<lparr>file_ptr = Some \<lparr>spath = ''a.log'', spos = 0\<rparr>, lock = False, truncate_at = trunc,
      filename = ''a.log'', cached_lines = cached\<rparr>"

definition plain_format :: "string \<Rightarrow> unit \<Rightarrow> string" where
  "plain_format format args = format"




section \<open>Properties\<close>

subsection \<open>Evaluating the read loops\<close>

lemma vsnprintf_trim_format [simp]:
  "vsnprintf n vfmt (trim_format format) args = message n vfmt format args"
  by (simp add: message_def)

lemma message_take: "message n vfmt format args = take (n - 1) (vfmt (trim_format format) args)"
  by (simp add: message_def vsnprintf_def del: vsnprintf_trim_format)

lemma read_line_Cons [simp]:
  "0 < k \<Longrightarrow> read_line k (c # cs) = (if c = newline then [c] else c # read_line (k - 1) cs)"
  by (cases k) auto

lemma read_line_Nil [simp]: "read_line k [] = []"
  by (cases k) auto

lemma count_loop_Nil [simp]: "2 \<le> n \<Longrightarrow> count_loop n [] i = Some i"
  by (simp add: count_loop.simps fgets_def)

lemma count_loop_Cons:
  "2 \<le> n \<Longrightarrow> count_loop n (c # cs) i =
     count_loop n (drop (length (read_line (n - 1) (c # cs))) (c # cs)) (i + 1)"
  by (subst count_loop.simps) (simp add: fgets_def Let_def)

lemma copy_loop_Nil [simp]: "2 \<le> n \<Longrightarrow> copy_loop n [] i skip tmp = Some tmp"
  by (simp add: copy_loop.simps fgets_def)

lemma copy_loop_Cons:
  "2 \<le> n \<Longrightarrow> copy_loop n (c # cs) i skip tmp =
     copy_loop n (drop (length (read_line (n - 1) (c # cs))) (c # cs)) (i + 1) skip
       (if skip \<le> i then tmp @ read_line (n - 1) (c # cs) else tmp)"
  by (subst copy_loop.simps) (simp add: fgets_def Let_def)

lemmas eval_defs =
  log_init_def log_write_def log_count_lines_def log_close_def swap_files_def fopen_def
  rewind_def fprintf_append_def fs_remove_def fs_rename_def content_def trim_format_def
  if_end_with_newline_def remove_newline_from_end_def message_take vsnprintf_def log_line_def
  Let_def
  env_ok_def no_files_def two_lines_def open_log_def plain_format_def
  count_loop_Cons copy_loop_Cons

subsection \<open>Both loops end\<close>

lemma count_loop_total: "2 \<le> n \<Longrightarrow> \<exists>k. count_loop n s i = Some k"
proof (induction n s i rule: count_loop.induct)
  case (1 n rest lines)
  show ?case
  proof (cases "fgets n rest")
    case None
    with "1.prems" show ?thesis by (simp add: count_loop.simps)
  next
    case (Some p)
    obtain line rest' where p: "p = (line, rest')" by (cases p)
    from "1.prems" have "\<not> n < 2" by simp
    from "1.IH"[OF this Some[unfolded p] refl "1.prems"]
    show ?thesis using Some p "1.prems" by (simp add: count_loop.simps)
  qed
qed

lemma copy_loop_total: "2 \<le> n \<Longrightarrow> \<exists>out. copy_loop n s i skip tmp = Some out"
proof (induction n s i skip tmp rule: copy_loop.induct)
  case (1 n rest i skip tmp)
  show ?case
  proof (cases "fgets n rest")
    case None
    with "1.prems" show ?thesis by (simp add: copy_loop.simps)
  next
    case (Some p)
    obtain line rest' where p: "p = (line, rest')" by (cases p)
    from "1.prems" have "\<not> n < 2" by simp
    from "1.IH"[OF this Some[unfolded p] refl "1.prems"]
    show ?thesis using Some p "1.prems" by (simp add: copy_loop.simps)
  qed
qed

lemma log_count_lines_returns:
  "2 \<le> n \<Longrightarrow> \<exists>r. log_count_lines n w (Some l) = Inr r"
  using count_loop_total[of n "content w (spath (the (file_ptr l)))" 0]
  by (auto simp: log_count_lines_def rewind_def Let_def split: option.splits)

lemma swap_files_returns:
  "2 \<le> n \<Longrightarrow> \<exists>w'. swap_files n f tmp fname skip w = Some w'"
  using copy_loop_total[of n "content w (spath f)" 0 skip "[]"]
  by (auto simp: swap_files_def rewind_def Let_def)


subsection \<open>Claims about \<^verbatim>\<open>log_init\<close>\<close>

text \<open>
  C5. A path as long as \<open>MAX_FILENAME_LENGTH\<close> or longer: \<^verbatim>\<open>log_init\<close> returns
  \<open>-1\<close>, whatever the C library would have answered, the handle is \<^verbatim>\<open>NULL\<close>, and
  the world is the one before the call: no file was created and no call that names a
  path was made. (Every error of \<^verbatim>\<open>log.c\<close> is the value \<open>-1\<close>.)
\<close>

theorem log_init_long_path:
  "MAX_FILENAME_LENGTH \<le> length fname \<Longrightarrow>
     log_init MAX_FILENAME_LENGTH BUFFER_SIZE e fname trunc w = Inr (- 1, None, w)"
  by (simp add: log_init_def)

theorem log_init_long_path_witness:
  "(5::nat) \<le> length ''a.log''
   \<and> log_init 5 1024 env_ok ''a.log'' 3 no_files = Inr (- 1, None, no_files)
   \<and> files no_files ''a.log'' = None"
  using log_init_long_path[of 5 "''a.log''" 1024 env_ok 3 no_files]
  by (simp add: no_files_def)



subsection \<open>The handle that is not checked\<close>

text \<open>
  C10. \<^verbatim>\<open>log_count_lines\<close> dereferences its handle unchecked: on \<^verbatim>\<open>NULL\<close> it does
  not return, and on every other handle it returns (for a line buffer of two bytes or
  more). \<^verbatim>\<open>log_write\<close> and \<^verbatim>\<open>log_close\<close> return \<open>-1\<close> on \<^verbatim>\<open>NULL\<close> and change
  nothing.
\<close>

theorem log_count_lines_unchecked_handle:
  "log_count_lines BUFFER_SIZE w None = Inl Null_deref
   \<and> (2 \<le> BUFFER_SIZE \<longrightarrow> (\<exists>r. log_count_lines BUFFER_SIZE w (Some l) = Inr r))
   \<and> log_write BUFFER_SIZE vfmt e time_str None format args w = Inr (- 1, None, format, w)
   \<and> log_close None = (- 1, None)"
  using log_count_lines_returns[of BUFFER_SIZE w l]
  by (simp add: log_count_lines_def log_write_def log_close_def)

theorem log_count_lines_unchecked_handle_witness:
  "log_count_lines 1024 two_lines None = Inl Null_deref
   \<and> (2::nat) \<le> 1024
   \<and> (\<exists>r. log_count_lines 1024 two_lines (Some (open_log 3 2)) = Inr r)
   \<and> log_write 1024 plain_format env_ok ''2024-01-01 00:00:00'' None ''hello'' () two_lines
       = Inr (- 1, None, ''hello'', two_lines)
   \<and> log_close None = (- 1, None)"
  using log_count_lines_unchecked_handle[of 1024 two_lines "open_log 3 2" plain_format env_ok
      "''2024-01-01 00:00:00''" "''hello''" "()"]
  by simp

subsection \<open>Claims about \<^verbatim>\<open>log_write\<close>\<close>

lemma trim_format_last:
  "trim_format format = (if format \<noteq> [] \<and> last format = newline then butlast format else format)"
  by (cases "format = []")
     (auto simp: trim_format_def if_end_with_newline_def remove_newline_from_end_def
        last_conv_nth butlast_conv_take)

lemma log_write_returns:
  assumes "2 \<le> n" and "\<not> lock l"
  shows "\<exists>r. log_write n vfmt e t (Some l) format args w = Inr r"
proof (cases "file_ptr l")
  case None
  then show ?thesis by (simp add: log_write_def)
next
  case (Some f)
  obtain f1 w1 where fp: "fprintf_append f (log_line t (message n vfmt format args)) w = (f1, w1)"
    by (cases "fprintf_append f (log_line t (message n vfmt format args)) w")
  obtain o2 w2 where op: "fopen (tmp_ok e) ''tmp.log'' Mode_w w1 = (o2, w2)"
    by (cases "fopen (tmp_ok e) ''tmp.log'' Mode_w w1")
  show ?thesis
  proof (cases o2)
    case None
    with Some fp op assms show ?thesis
      by (simp add: log_write_def Let_def)
  next
    case (Some tmp)
    obtain w3 where sw: "swap_files n f1 tmp (filename l)
        ((if cached_lines l \<noteq> - 1 then cached_lines l + 1 else cached_lines l)
           - truncate_at l) w2 = Some w3"
      using swap_files_returns[OF assms(1)] by blast
    obtain o4 w4 where ro: "fopen (reopen_ok e) (filename l) Mode_a_plus w3 = (o4, w4)"
      by (cases "fopen (reopen_ok e) (filename l) Mode_a_plus w3")
    from \<open>file_ptr l = Some f\<close> fp op Some sw ro assms show ?thesis
      by (cases o4) (simp_all add: log_write_def Let_def)
  qed
qed

text \<open>
  C8, as stated, fails at the two guards of \<^verbatim>\<open>log_write\<close>: with a \<^verbatim>\<open>NULL\<close> handle, or
  a handle whose file is not open, the function returns before it trims, and a template
  that ends with a newline comes back as it was.
\<close>

theorem log_write_null_handle_keeps_format:
  "if_end_with_newline ''hello\<newline>'' = 1
   \<and> log_write 1024 plain_format env_ok ''2024-01-01 00:00:00'' None ''hello\<newline>'' () two_lines
       = Inr (- 1, None, ''hello\<newline>'', two_lines)
   \<and> log_write 1024 plain_format env_ok ''2024-01-01 00:00:00''
         (Some ((open_log 3 2)\<lparr>file_ptr := None\<rparr>)) ''hello\<newline>'' () two_lines
       = Inr (- 1, Some ((open_log 3 2)\<lparr>file_ptr := None\<rparr>), ''hello\<newline>'', two_lines)"
  by (simp add: eval_defs)

text \<open>
  C8, amended. On a handle that is not \<^verbatim>\<open>NULL\<close> and whose file is open, whenever
  \<^verbatim>\<open>log_write\<close> returns (with \<open>0\<close> or \<open>-1\<close>) the caller's template has lost its last
  character if that was a newline, and is unchanged otherwise.
\<close>

theorem log_write_trims_format:
  assumes "log_write BUFFER_SIZE vfmt e time_str (Some l) format args w = Inr (rc, l', format', w')"
      and "file_ptr l \<noteq> None"
  shows "format' = (if format \<noteq> [] \<and> last format = newline then butlast format else format)"
proof -
  from assms have "format' = trim_format format"
    by (auto simp: log_write_def Let_def split: option.splits if_splits prod.splits)
  then show ?thesis by (simp only: trim_format_last)
qed

theorem log_write_trims_format_witness:
  "log_write 1024 plain_format env_ok ''2024-01-01 00:00:00'' (Some (open_log 3 2))
       ''hello\<newline>'' () two_lines
     = Inr (0, Some ((open_log 3 3)\<lparr>file_ptr := Some \<lparr>spath = ''a.log'', spos = 32\<rparr>\<rparr>), ''hello'',
            \<lparr>files = [''a.log'' \<mapsto> ''a\<newline>b\<newline>[2024-01-01 00:00:00] hello\<newline>''], calls = []\<rparr>)
   \<and> file_ptr (open_log 3 2) \<noteq> None
   \<and> ''hello'' = butlast ''hello\<newline>''"
  using log_write_trims_format[of 1024 plain_format env_ok "''2024-01-01 00:00:00''"
      "open_log 3 2" "''hello\<newline>''" "()" two_lines 0
      "Some ((open_log 3 3)\<lparr>file_ptr := Some \<lparr>spath = ''a.log'', spos = 32\<rparr>\<rparr>)" "''hello''"
      "\<lparr>files = [''a.log'' \<mapsto> ''a\<newline>b\<newline>[2024-01-01 00:00:00] hello\<newline>''], calls = []\<rparr>"]
  by (simp add: eval_defs)




subsection \<open>The bound on \<^verbatim>\<open>cached_lines\<close>\<close>

text \<open>
  C2, as stated, fails on the error returns of \<^verbatim>\<open>log_write\<close>: the counter is
  incremented before the truncation pass, and a pass that fails returns \<open>-1\<close> with the
  counter one above the bound. Here the log is initialised on a file of two lines with
  \<^verbatim>\<open>truncate_at = 2\<close>, and the next write cannot open its temporary file.
\<close>

theorem log_write_failed_pass_count_over:
  "log_init 256 1024 env_ok ''a.log'' 2 two_lines
     = Inr (0, Some ((open_log 2 2)\<lparr>file_ptr := Some \<lparr>spath = ''a.log'', spos = 4\<rparr>\<rparr>),
            two_lines\<lparr>calls := [Fopen ''a.log'' Mode_a_plus]\<rparr>)
   \<and> log_write 1024 plain_format (env_ok\<lparr>tmp_ok := False\<rparr>) ''2024-01-01 00:00:00''
         (Some ((open_log 2 2)\<lparr>file_ptr := Some \<lparr>spath = ''a.log'', spos = 4\<rparr>\<rparr>)) ''c'' ()
         (two_lines\<lparr>calls := [Fopen ''a.log'' Mode_a_plus]\<rparr>)
     = Inr (- 1,
            Some \<lparr>file_ptr = Some \<lparr>spath = ''a.log'', spos = 28\<rparr>, lock = False, truncate_at = 2,
                  filename = ''a.log'', cached_lines = 3\<rparr>,
            ''c'',
            \<lparr>files = [''a.log'' \<mapsto> ''a\<newline>b\<newline>[2024-01-01 00:00:00] c\<newline>''],
             calls = [Fopen ''a.log'' Mode_a_plus, Fopen ''tmp.log'' Mode_w]\<rparr>)
   \<and> truncate_at \<lparr>file_ptr = Some \<lparr>spath = ''a.log'', spos = 28\<rparr>, lock = False,
                    truncate_at = 2, filename = ''a.log'', cached_lines = 3\<rparr>
       < cached_lines \<lparr>file_ptr = Some \<lparr>spath = ''a.log'', spos = 28\<rparr>, lock = False,
                       truncate_at = 2, filename = ''a.log'', cached_lines = 3\<rparr>"
  by (simp add: eval_defs)

text \<open>
  C2, amended. With a bound (\<^verbatim>\<open>truncate_at\<close> other than \<open>-1\<close>), after every
  \<^verbatim>\<open>log_init\<close> and every \<^verbatim>\<open>log_write\<close> that returns \<open>0\<close>, \<^verbatim>\<open>cached_lines\<close> is at
  most \<^verbatim>\<open>truncate_at\<close>.
\<close>

theorem cached_lines_bounded_on_success:
  "(log_init MAX_FILENAME_LENGTH BUFFER_SIZE e fname trunc w = Inr (0, Some l, w') \<and> trunc \<noteq> - 1
      \<longrightarrow> truncate_at l = trunc \<and> cached_lines l \<le> trunc)
   \<and> (log_write BUFFER_SIZE vfmt e time_str (Some l0) format args w0 = Inr (0, Some l1, format', w1)
        \<and> truncate_at l0 \<noteq> - 1
      \<longrightarrow> truncate_at l1 = truncate_at l0 \<and> cached_lines l1 \<le> truncate_at l1)"
proof -
  have "truncate_at l = trunc \<and> cached_lines l \<le> trunc"
    if "log_init MAX_FILENAME_LENGTH BUFFER_SIZE e fname trunc w = Inr (0, Some l, w')"
      and "trunc \<noteq> - 1"
    using that
    by (auto simp: log_init_def log_count_lines_def Let_def
        split: if_splits prod.splits option.splits sum.splits)
  moreover have "truncate_at l1 = truncate_at l0 \<and> cached_lines l1 \<le> truncate_at l1"
    if "log_write BUFFER_SIZE vfmt e time_str (Some l0) format args w0
          = Inr (0, Some l1, format', w1)"
      and "truncate_at l0 \<noteq> - 1"
    using that
    by (auto simp: log_write_def Let_def split: if_splits prod.splits option.splits)
  ultimately show ?thesis by blast
qed

theorem cached_lines_bounded_on_success_witness:
  "log_init 256 1024 env_ok ''a.log'' 1 two_lines
     = Inr (0, Some ((open_log 1 1)\<lparr>file_ptr := Some \<lparr>spath = ''a.log'', spos = 0\<rparr>\<rparr>),
            \<lparr>files = [''a.log'' \<mapsto> ''b\<newline>''],
             calls = Fopen ''a.log'' Mode_a_plus # pass_calls ''a.log''\<rparr>)
   \<and> log_write 1024 plain_format env_ok ''2024-01-01 00:00:00'' (Some (open_log 1 1)) ''c'' ()
         \<lparr>files = [''a.log'' \<mapsto> ''b\<newline>''], calls = []\<rparr>
     = Inr (0, Some (open_log 1 1), ''c'',
            \<lparr>files = [''a.log'' \<mapsto> ''[2024-01-01 00:00:00] c\<newline>''], calls = pass_calls ''a.log''\<rparr>)
   \<and> (1::int) \<noteq> - 1
   \<and> truncate_at (open_log 1 1) = 1 \<and> cached_lines (open_log 1 1) \<le> 1"
  using cached_lines_bounded_on_success[where MAX_FILENAME_LENGTH = 256 and BUFFER_SIZE = 1024
      and e = env_ok and fname = "''a.log''" and trunc = 1 and w = two_lines
      and l = "open_log 1 1"
      and w' = "\<lparr>files = [''a.log'' \<mapsto> ''b\<newline>''],
                 calls = Fopen ''a.log'' Mode_a_plus # pass_calls ''a.log''\<rparr>"
      and vfmt = plain_format and time_str = "''2024-01-01 00:00:00''" and ?l0.0 = "open_log 1 1"
      and format = "''c''" and args = "()"
      and ?w0.0 = "\<lparr>files = [''a.log'' \<mapsto> ''b\<newline>''], calls = []\<rparr>"
      and ?l1.0 = "open_log 1 1" and format' = "''c''"
      and ?w1.0 = "\<lparr>files = [''a.log'' \<mapsto> ''[2024-01-01 00:00:00] c\<newline>''],
                    calls = pass_calls ''a.log''\<rparr>"]
  by (simp add: eval_defs pass_calls_def fun_upd_twist)

subsection \<open>A truncation pass that fails\<close>

text \<open>
  C6. The write goes past the bound (the condition of line 172 holds after the
  increment) and its truncation pass fails, at the temporary file or at the reopening
  of the log: \<^verbatim>\<open>log_write\<close> returns \<open>-1\<close>, the mutex is released, and every later
  \<^verbatim>\<open>log_write\<close> and \<^verbatim>\<open>log_count_lines\<close> on the handle returns a value
  (\<^verbatim>\<open>log_close\<close> has no way not to).
\<close>

theorem log_write_failed_pass_recovers:
  assumes "2 \<le> BUFFER_SIZE" and "file_ptr l = Some f" and "\<not> lock l"
      and "truncate_at l \<noteq> - 1"
      and "truncate_at l < (if cached_lines l \<noteq> - 1 then cached_lines l + 1 else cached_lines l)"
      and "\<not> tmp_ok e \<or> \<not> reopen_ok e"
  shows "\<exists>l' format' w'.
           log_write BUFFER_SIZE vfmt e time_str (Some l) format args w
             = Inr (- 1, Some l', format', w')
           \<and> \<not> lock l'
           \<and> (\<forall>e2 t2 format2 args2 w2.
                 \<exists>r. log_write BUFFER_SIZE vfmt e2 t2 (Some l') format2 args2 w2 = Inr r)
           \<and> (\<forall>w2. \<exists>r. log_count_lines BUFFER_SIZE w2 (Some l') = Inr r)"
proof -
  obtain f1 w1 where fp:
    "fprintf_append f (log_line time_str (message BUFFER_SIZE vfmt format args)) w = (f1, w1)"
    by (cases "fprintf_append f (log_line time_str (message BUFFER_SIZE vfmt format args)) w")
  obtain o2 w2 where op: "fopen (tmp_ok e) ''tmp.log'' Mode_w w1 = (o2, w2)"
    by (cases "fopen (tmp_ok e) ''tmp.log'' Mode_w w1")
  note due = assms(4,5)
  have "\<exists>l' format' w'.
           log_write BUFFER_SIZE vfmt e time_str (Some l) format args w
             = Inr (- 1, Some l', format', w') \<and> \<not> lock l'"
  proof (cases o2)
    case None
    with fp op due assms(2,3) show ?thesis
      by (simp add: log_write_def Let_def)
  next
    case (Some tmp)
    with op have tok: "tmp_ok e" by (auto simp: fopen_def Let_def split: if_splits)
    with assms(6) have nre: "\<not> reopen_ok e" by simp
    obtain w3 where sw: "swap_files BUFFER_SIZE f1 tmp (filename l)
        ((if cached_lines l \<noteq> - 1 then cached_lines l + 1 else cached_lines l)
           - truncate_at l) w2 = Some w3"
      using swap_files_returns[OF assms(1)] by blast
    from fp op Some sw nre due assms(2,3) show ?thesis
      by (simp add: log_write_def Let_def fopen_def)
  qed
  then obtain l' format' w' where
    r: "log_write BUFFER_SIZE vfmt e time_str (Some l) format args w = Inr (- 1, Some l', format', w')"
    and ul: "\<not> lock l'" by blast
  from ul assms(1) have "\<exists>r. log_write BUFFER_SIZE vfmt e2 t2 (Some l') format2 args2 w2 = Inr r"
    for e2 t2 format2 args2 w2
    by (intro log_write_returns)
  moreover from assms(1) have "\<exists>r. log_count_lines BUFFER_SIZE w2 (Some l') = Inr r" for w2
    by (rule log_count_lines_returns)
  ultimately show ?thesis using r ul by blast
qed

text \<open>
  Both failures, run: after the temporary file could not be opened, the next write
  succeeds and cuts the file down to the bound; after the log could not be reopened,
  the handle has no file and every later call returns \<open>-1\<close>.
\<close>

theorem log_write_failed_pass_recovers_witness:
  "(2::nat) \<le> 1024
   \<and> file_ptr (open_log 2 2) = Some \<lparr>spath = ''a.log'', spos = 0\<rparr>
   \<and> \<not> lock (open_log 2 2)
   \<and> truncate_at (open_log 2 2) = 2 \<and> cached_lines (open_log 2 2) = 2
   \<and> \<not> tmp_ok (env_ok\<lparr>tmp_ok := False\<rparr>)
   \<and> log_write 1024 plain_format (env_ok\<lparr>tmp_ok := False\<rparr>) ''2024-01-01 00:00:00''
         (Some (open_log 2 2)) ''c'' () two_lines
       = Inr (- 1, Some ((open_log 2 3)\<lparr>file_ptr := Some \<lparr>spath = ''a.log'', spos = 28\<rparr>\<rparr>), ''c'',
              \<lparr>files = [''a.log'' \<mapsto> ''a\<newline>b\<newline>[2024-01-01 00:00:00] c\<newline>''],
               calls = [Fopen ''tmp.log'' Mode_w]\<rparr>)
   \<and> log_write 1024 plain_format env_ok ''2024-01-01 00:00:01''
         (Some ((open_log 2 3)\<lparr>file_ptr := Some \<lparr>spath = ''a.log'', spos = 28\<rparr>\<rparr>)) ''d'' ()
         \<lparr>files = [''a.log'' \<mapsto> ''a\<newline>b\<newline>[2024-01-01 00:00:00] c\<newline>''],
          calls = [Fopen ''tmp.log'' Mode_w]\<rparr>
       = Inr (0, Some (open_log 2 2), ''d'',
              \<lparr>files = [''a.log'' \<mapsto> ''[2024-01-01 00:00:00] c\<newline>[2024-01-01 00:00:01] d\<newline>''],
               calls = Fopen ''tmp.log'' Mode_w # pass_calls ''a.log''\<rparr>)
   \<and> log_write 1024 plain_format (env_ok\<lparr>reopen_ok := False\<rparr>) ''2024-01-01 00:00:00''
         (Some (open_log 2 2)) ''c'' () two_lines
       = Inr (- 1, Some ((open_log 2 3)\<lparr>file_ptr := None\<rparr>), ''c'',
              \<lparr>files = [''a.log'' \<mapsto> ''b\<newline>[2024-01-01 00:00:00] c\<newline>''],
               calls = pass_calls ''a.log''\<rparr>)
   \<and> log_write 1024 plain_format env_ok ''2024-01-01 00:00:01''
         (Some ((open_log 2 3)\<lparr>file_ptr := None\<rparr>)) ''d'' () two_lines
       = Inr (- 1, Some ((open_log 2 3)\<lparr>file_ptr := None\<rparr>), ''d'', two_lines)
   \<and> log_count_lines 1024 two_lines (Some ((open_log 2 3)\<lparr>file_ptr := None\<rparr>))
       = Inr (- 1, (open_log 2 3)\<lparr>file_ptr := None\<rparr>)
   \<and> log_close (Some ((open_log 2 3)\<lparr>file_ptr := None\<rparr>))
       = (- 1, Some ((open_log 2 3)\<lparr>file_ptr := None\<rparr>))"
  using log_write_failed_pass_recovers[where BUFFER_SIZE = 1024 and l = "open_log 2 2"
      and f = "\<lparr>spath = ''a.log'', spos = 0\<rparr>" and e = "env_ok\<lparr>tmp_ok := False\<rparr>"
      and vfmt = plain_format and time_str = "''2024-01-01 00:00:00''" and format = "''c''"
      and args = "()" and w = two_lines]
  by (simp add: eval_defs pass_calls_def fun_upd_twist)

subsection \<open>The temporary file\<close>




subsection \<open>Lines and what the loops read\<close>

lemma split_lines_Nil_iff [simp]: "split_lines s = [] \<longleftrightarrow> s = []"
  by (cases s) (auto split: list.splits)

lemma concat_split_lines [simp]: "concat (split_lines s) = s"
  by (induction s) (auto split: list.splits)

lemma split_lines_first:
  "split_lines s = l # ls \<Longrightarrow> length l \<le> k \<Longrightarrow>
     read_line k s = l \<and> ls = split_lines (drop (length l) s)"
proof (induction s arbitrary: k l ls)
  case Nil
  then show ?case by simp
next
  case (Cons c cs)
  show ?case
  proof (cases "c = newline")
    case True
    with Cons.prems show ?thesis by (cases k) auto
  next
    case False
    show ?thesis
    proof (cases "split_lines cs")
      case Nil
      with False Cons.prems show ?thesis by (cases k) auto
    next
      case (Cons l' ls')
      with False Cons.prems have l: "l = c # l'" and ls: "ls = ls'" by auto
      with Cons.prems obtain k' where k: "k = Suc k'" and "length l' \<le> k'"
        by (cases k) auto
      from Cons.IH[OF Cons this(2)] False l ls k show ?thesis by simp
    qed
  qed
qed

lemma fgets_split_lines:
  assumes "split_lines s = l # ls" and "length l \<le> n - 1"
  shows "fgets n s = Some (l, drop (length l) s)" and "split_lines (drop (length l) s) = ls"
  using split_lines_first[OF assms] assms(1) by (auto simp: fgets_def Let_def)

lemma count_loop_split_lines:
  assumes "2 \<le> n" and "\<forall>l \<in> set (split_lines s). length l \<le> n - 1"
  shows "count_loop n s i = Some (i + int (length (split_lines s)))"
  using assms(2)
proof (induction "split_lines s" arbitrary: s i)
  case Nil
  from Nil.hyps have "s = []" by (simp add: split_lines_Nil_iff[symmetric] del: split_lines_Nil_iff)
  with assms(1) show ?case by simp
next
  case (Cons l ls)
  from Cons.hyps(2) Cons.prems have fit: "length l \<le> n - 1"
    by (metis list.set_intros(1))
  note fg = fgets_split_lines[OF Cons.hyps(2)[symmetric] fit]
  have ih: "count_loop n (drop (length l) s) (i + 1)
          = Some (i + 1 + int (length (split_lines (drop (length l) s))))"
  proof (rule Cons.hyps(1))
    show "ls = split_lines (drop (length l) s)" using fg(2) by simp
    show "\<forall>l\<in>set (split_lines (drop (length l) s)). length l \<le> n - 1"
      using Cons.prems Cons.hyps(2) fg(2) by (metis list.set_intros(2))
  qed
  have len: "int (length (split_lines s)) = 1 + int (length (split_lines (drop (length l) s)))"
    using Cons.hyps(2)[symmetric] fg(2) by simp
  have "count_loop n s i = count_loop n (drop (length l) s) (i + 1)"
    using assms(1) fg(1) by (subst count_loop.simps) simp
  with ih len show ?case by simp
qed

lemma copy_loop_split_lines:
  assumes "2 \<le> n" and "\<forall>l \<in> set (split_lines s). length l \<le> n - 1"
  shows "copy_loop n s i skip tmp = Some (tmp @ concat (drop (nat (skip - i)) (split_lines s)))"
  using assms(2)
proof (induction "split_lines s" arbitrary: s i tmp)
  case Nil
  from Nil.hyps have "s = []" by (simp add: split_lines_Nil_iff[symmetric] del: split_lines_Nil_iff)
  with assms(1) show ?case by simp
next
  case (Cons l ls)
  from Cons.hyps(2) Cons.prems have fit: "length l \<le> n - 1"
    by (metis list.set_intros(1))
  note fg = fgets_split_lines[OF Cons.hyps(2)[symmetric] fit]
  let ?s' = "drop (length l) s" and ?tmp' = "if skip \<le> i then tmp @ l else tmp"
  have ih: "copy_loop n ?s' (i + 1) skip ?tmp'
          = Some (?tmp' @ concat (drop (nat (skip - (i + 1))) (split_lines ?s')))"
  proof (rule Cons.hyps(1))
    show "ls = split_lines ?s'" using fg(2) by simp
    show "\<forall>l\<in>set (split_lines ?s'). length l \<le> n - 1"
      using Cons.prems Cons.hyps(2) fg(2) by (metis list.set_intros(2))
  qed
  have sl: "split_lines s = l # split_lines ?s'"
    using Cons.hyps(2)[symmetric] fg(2) by simp
  have step: "copy_loop n s i skip tmp = copy_loop n ?s' (i + 1) skip ?tmp'"
    using assms(1) fg(1) by (subst copy_loop.simps) simp
  show ?case
  proof (cases "skip \<le> i")
    case True
    then have "nat (skip - i) = 0" "nat (skip - (i + 1)) = 0" by simp_all
    with step ih True sl show ?thesis by simp
  next
    case False
    then have "nat (skip - i) = Suc (nat (skip - (i + 1)))" by simp
    with step ih False sl show ?thesis by simp
  qed
qed

lemma length_split_lines:
  "length (split_lines s)
     = count_list s newline + (if s \<noteq> [] \<and> last s \<noteq> newline then 1 else 0)"
  by (induction s) (auto split: list.splits)

lemma split_lines_line:
  "newline \<notin> set body \<Longrightarrow>
     split_lines (body @ newline # rest) = (body @ [newline]) # split_lines rest"
  by (induction body) auto

lemma is_line_split: "is_line r \<Longrightarrow> split_lines (r @ rest) = r # split_lines rest"
proof -
  assume "is_line r"
  then have "r = butlast r @ [newline]" and "newline \<notin> set (butlast r)"
    unfolding is_line_def by (metis append_butlast_last_id, blast)
  then show ?thesis using split_lines_line[of "butlast r" rest]
    by (metis append.assoc append_Cons append_Nil)
qed

lemma split_lines_concat: "\<forall>r \<in> set rs. is_line r \<Longrightarrow> split_lines (concat rs) = rs"
  by (induction rs) (auto simp: is_line_split)

lemma is_line_log_line:
  "newline \<notin> set t \<Longrightarrow> newline \<notin> set m \<Longrightarrow> is_line (log_line t m)"
  by (simp add: is_line_def log_line_def butlast_append)

lemma call_fits_line:
  "call_fits n vfmt c \<Longrightarrow> is_line (call_line n vfmt c) \<and> length (call_line n vfmt c) \<le> n - 1"
  by (cases c) (auto simp: call_fits_def call_line_def is_line_log_line)

lemma content_calls [simp]: "content (w\<lparr>calls := cs\<rparr>) p = content w p"
  by (simp add: content_def)

lemma content_files [simp]:
  "content (w\<lparr>files := fs\<rparr>) p = (case fs p of None \<Rightarrow> [] | Some c \<Rightarrow> c)"
  by (simp add: content_def)

lemma copy_loop_lines:
  assumes "2 \<le> n" and "\<forall>r \<in> set rs. is_line r \<and> length r \<le> n - 1"
  shows "copy_loop n (concat rs) 0 skip [] = Some (concat (drop (nat skip) rs))"
proof -
  from assms(2) have sl: "split_lines (concat rs) = rs" by (simp add: split_lines_concat)
  with assms(2) have "\<forall>l \<in> set (split_lines (concat rs)). length l \<le> n - 1" by simp
  from copy_loop_split_lines[OF assms(1) this, of 0 skip "[]"] sl show ?thesis by simp
qed

subsection \<open>Counting lines\<close>

text \<open>
  C7, as stated, fails on a file whose last line has no terminator: \<^verbatim>\<open>fgets\<close> returns
  that line too, and \<^verbatim>\<open>log_count_lines\<close> counts it. The file below holds one
  newline-terminated record and the count is 2.
\<close>

theorem log_count_lines_unterminated_tail:
  "log_count_lines 1024 \<lparr>files = [''a.log'' \<mapsto> ''a\<newline>bc''], calls = []\<rparr> (Some (open_log 3 1))
     = Inr (2, (open_log 3 1)\<lparr>file_ptr := Some \<lparr>spath = ''a.log'', spos = 4\<rparr>\<rparr>)
   \<and> count_list ''a\<newline>bc'' newline = 1"
  by (simp add: eval_defs)

text \<open>
  C7, amended. On an open handle \<^verbatim>\<open>log_count_lines\<close> returns for every content of
  the file and every read position, and changes nothing of the log but the position of
  its stream: \<^verbatim>\<open>cached_lines\<close> is as before. When every line of the file, terminator
  included, has at most \<open>BUFFER_SIZE - 1\<close> characters, the count is the number of lines:
  the newline-terminated ones, plus one when the file ends in a line without
  terminator. The read position before the call has no part in it.
\<close>

theorem log_count_lines_counts_lines:
  assumes "2 \<le> BUFFER_SIZE" and "file_ptr l = Some f"
  shows "\<exists>n. log_count_lines BUFFER_SIZE w (Some l)
               = Inr (n, l\<lparr>file_ptr := Some (f\<lparr>spos := length (content w (spath f))\<rparr>)\<rparr>)
             \<and> ((\<forall>line \<in> set (split_lines (content w (spath f))).
                    length line \<le> BUFFER_SIZE - 1)
                 \<longrightarrow> n = int (count_list (content w (spath f)) newline)
                         + (if content w (spath f) \<noteq> [] \<and> last (content w (spath f)) \<noteq> newline
                            then 1 else 0))"
proof -
  let ?c = "content w (spath f)"
  from count_loop_total[OF assms(1), of ?c 0] obtain n where n: "count_loop BUFFER_SIZE ?c 0 = Some n"
    by blast
  with assms(2) have r: "log_count_lines BUFFER_SIZE w (Some l)
               = Inr (n, l\<lparr>file_ptr := Some (f\<lparr>spos := length ?c\<rparr>)\<rparr>)"
    by (simp add: log_count_lines_def rewind_def Let_def)
  have "n = int (count_list ?c newline) + (if ?c \<noteq> [] \<and> last ?c \<noteq> newline then 1 else 0)"
    if "\<forall>line \<in> set (split_lines ?c). length line \<le> BUFFER_SIZE - 1"
    using count_loop_split_lines[OF assms(1) that, of 0] n by (simp add: length_split_lines)
  with r show ?thesis by blast
qed

theorem log_count_lines_counts_lines_witness:
  "(2::nat) \<le> 1024
   \<and> file_ptr ((open_log 3 7)\<lparr>file_ptr := Some \<lparr>spath = ''a.log'', spos = 3\<rparr>\<rparr>)
       = Some \<lparr>spath = ''a.log'', spos = 3\<rparr>
   \<and> split_lines (content two_lines ''a.log'') = [''a\<newline>'', ''b\<newline>'']
   \<and> log_count_lines 1024 two_lines
         (Some ((open_log 3 7)\<lparr>file_ptr := Some \<lparr>spath = ''a.log'', spos = 3\<rparr>\<rparr>))
       = Inr (2, (open_log 3 7)\<lparr>file_ptr := Some \<lparr>spath = ''a.log'', spos = 4\<rparr>\<rparr>)
   \<and> count_list (content two_lines ''a.log'') newline = 2"
  using log_count_lines_counts_lines[where BUFFER_SIZE = 1024
      and l = "(open_log 3 7)\<lparr>file_ptr := Some \<lparr>spath = ''a.log'', spos = 3\<rparr>\<rparr>"
      and f = "\<lparr>spath = ''a.log'', spos = 3\<rparr>" and w = two_lines]
  by (simp add: eval_defs)

subsection \<open>The last \<open>K\<close> records\<close>

lemma drop_last_window:
  "drop (length (drop (length xs - K) xs @ ys) - K) (drop (length xs - K) xs @ ys)
     = drop (length (xs @ ys) - K) (xs @ ys)"
  by (cases "length xs \<le> K") (auto simp: add.commute)

lemma log_write_keeps:
  assumes inv: "keeps n K fname rs l w"
      and n: "2 \<le> n" and fname: "fname \<noteq> ''tmp.log''"
      and ok: "tmp_ok e" "reopen_ok e"
      and r: "r = log_line t (message n vfmt format args)" "is_line r" "length r \<le> n - 1"
  shows "\<exists>l' w'. log_write n vfmt e t (Some l) format args w
                    = Inr (0, Some l', trim_format format, w')
                  \<and> keeps n K fname (drop (length (rs @ [r]) - K) (rs @ [r])) l' w'"
proof -
  from inv obtain p where fp: "file_ptr l = Some \<lparr>spath = fname, spos = p\<rparr>"
    and ul: "\<not> lock l" and tr: "truncate_at l = int K" and fn: "filename l = fname"
    and cl: "cached_lines l = int (length rs)" and le: "length rs \<le> K"
    and fl: "files w fname = Some (concat rs)"
    and ln: "\<forall>r \<in> set rs. is_line r \<and> length r \<le> n - 1"
    unfolding keeps_def by blast
  from ln r have ln': "\<forall>x \<in> set (rs @ [r]). is_line x \<and> length x \<le> n - 1" by simp
  show ?thesis
  proof (cases "length rs < K")
    case True
    then have "drop (length (rs @ [r]) - K) (rs @ [r]) = rs @ [r]" by simp
    moreover from True fp ul tr fn cl fl r(1) ln' have
      "log_write n vfmt e t (Some l) format args w
         = Inr (0, Some (l\<lparr>file_ptr := Some \<lparr>spath = fname, spos = length (concat rs @ r)\<rparr>,
                            lock := False, cached_lines := int (length rs) + 1\<rparr>),
                trim_format format, w\<lparr>files := (files w)(fname \<mapsto> concat rs @ r)\<rparr>)"
      by (simp add: log_write_def Let_def fprintf_append_def content_def)
    moreover from True tr fn ln' have
      "keeps n K fname (rs @ [r])
         (l\<lparr>file_ptr := Some \<lparr>spath = fname, spos = length (concat rs @ r)\<rparr>,
            lock := False, cached_lines := int (length rs) + 1\<rparr>)
         (w\<lparr>files := (files w)(fname \<mapsto> concat rs @ r)\<rparr>)"
      by (simp add: keeps_def)
    ultimately show ?thesis by simp
  next
    case False
    with le have eq: "length rs = K" by simp
    then have win: "drop (length (rs @ [r]) - K) (rs @ [r]) = drop 1 (rs @ [r])" by simp
    have cp: "copy_loop n (concat (rs @ [r])) 0 1 [] = Some (concat (drop 1 (rs @ [r])))"
      using copy_loop_lines[OF n ln', of 1] by simp
    let ?out = "concat (drop 1 (rs @ [r]))"
    from eq fp ul tr fn cl fl r(1) ok fname cp have
      "\<exists>w'. log_write n vfmt e t (Some l) format args w
         = Inr (0, Some (l\<lparr>file_ptr := Some \<lparr>spath = fname, spos = 0\<rparr>,
                            lock := False, cached_lines := int K\<rparr>),
                trim_format format, w')
         \<and> files w' fname = Some ?out"
      by (simp add: log_write_def Let_def fprintf_append_def content_def fopen_def
            swap_files_def rewind_def fs_remove_def fs_rename_def)
    then obtain w' where
      lw: "log_write n vfmt e t (Some l) format args w
         = Inr (0, Some (l\<lparr>file_ptr := Some \<lparr>spath = fname, spos = 0\<rparr>,
                            lock := False, cached_lines := int K\<rparr>),
                trim_format format, w')"
      and fw: "files w' fname = Some ?out" by blast
    from eq tr fn ln' fw have
      "keeps n K fname (drop 1 (rs @ [r]))
         (l\<lparr>file_ptr := Some \<lparr>spath = fname, spos = 0\<rparr>, lock := False, cached_lines := int K\<rparr>) w'"
      by (auto simp: keeps_def dest: in_set_dropD)
    with lw win show ?thesis by simp
  qed
qed

lemma log_writes_keeps:
  assumes n: "2 \<le> n" and fname: "fname \<noteq> ''tmp.log''"
  shows "keeps n K fname rs l w \<Longrightarrow> \<forall>c \<in> set cs. call_fits n vfmt c \<Longrightarrow>
         \<exists>l' w'. log_writes n vfmt (Some l) cs w = Inr (Some l', w')
                  \<and> keeps n K fname
                      (drop (length (rs @ map (call_line n vfmt) cs) - K)
                         (rs @ map (call_line n vfmt) cs)) l' w'"
proof (induction cs arbitrary: rs l w)
  case Nil
  then have "length rs \<le> K" by (simp add: keeps_def)
  with Nil show ?case by simp
next
  case (Cons c cs)
  obtain e t format args where c: "c = (e, t, format, args)" by (cases c)
  let ?r = "call_line n vfmt c"
  from Cons.prems(2) have cf: "call_fits n vfmt c" by simp
  from call_fits_line[OF cf] have rl: "is_line ?r" "length ?r \<le> n - 1" by simp_all
  from cf c have ok: "tmp_ok e" "reopen_ok e" by (simp_all add: call_fits_def)
  have rdef: "?r = log_line t (message n vfmt format args)" by (simp add: c call_line_def)
  from log_write_keeps[OF Cons.prems(1) n fname ok rdef rl]
  obtain l1 w1 where
    lw: "log_write n vfmt e t (Some l) format args w = Inr (0, Some l1, trim_format format, w1)"
    and k1: "keeps n K fname (drop (length (rs @ [?r]) - K) (rs @ [?r])) l1 w1" by blast
  from Cons.prems(2) have "\<forall>c \<in> set cs. call_fits n vfmt c" by simp
  from Cons.IH[OF k1 this] obtain l' w' where
    ws: "log_writes n vfmt (Some l1) cs w1 = Inr (Some l', w')"
    and k': "keeps n K fname
       (drop (length (drop (length (rs @ [?r]) - K) (rs @ [?r]) @ map (call_line n vfmt) cs) - K)
          (drop (length (rs @ [?r]) - K) (rs @ [?r]) @ map (call_line n vfmt) cs)) l' w'"
    by blast
  have "drop (length (drop (length (rs @ [?r]) - K) (rs @ [?r]) @ map (call_line n vfmt) cs) - K)
          (drop (length (rs @ [?r]) - K) (rs @ [?r]) @ map (call_line n vfmt) cs)
        = drop (length (rs @ map (call_line n vfmt) (c # cs)) - K)
            (rs @ map (call_line n vfmt) (c # cs))"
    using drop_last_window[of "rs @ [?r]" K "map (call_line n vfmt) cs"] by simp
  with k' lw ws c show ?case by simp
qed

lemma log_init_keeps:
  assumes "2 \<le> n" and "length fname < m" and "content w fname = []"
      and "malloc_ok e" "fopen_ok e" "mutex_init_ok e" "mutex_lock_ok e"
  shows "\<exists>l' w'. log_init m n e fname (int K) w = Inr (0, Some l', w')
                  \<and> keeps n K fname [] l' w'"
  using assms
  by (simp add: log_init_def log_count_lines_def fopen_def rewind_def Let_def keeps_def)

text \<open>
  Where the window holds. The log is initialised with the bound \<open>K\<close> on an absent or
  empty file whose path is not \<^verbatim>\<open>tmp.log\<close>, and more than \<open>K\<close> writes follow, each
  of a line that one \<^verbatim>\<open>fgets\<close> reads whole. Then the file holds exactly \<open>K\<close> lines,
  the lines of the last \<open>K\<close> writes in the order they were written.
\<close>

theorem log_writes_keep_last:
  assumes "2 \<le> BUFFER_SIZE" and "length fname < MAX_FILENAME_LENGTH"
      and "fname \<noteq> ''tmp.log''" and "content w0 fname = []"
      and "malloc_ok e0" "fopen_ok e0" "mutex_init_ok e0" "mutex_lock_ok e0"
      and "\<forall>c \<in> set cs. call_fits BUFFER_SIZE vfmt c" and "K < length cs"
  shows "\<exists>l0 w1 l w.
           log_init MAX_FILENAME_LENGTH BUFFER_SIZE e0 fname (int K) w0 = Inr (0, Some l0, w1)
           \<and> log_writes BUFFER_SIZE vfmt (Some l0) cs w1 = Inr (Some l, w)
           \<and> files w fname
               = Some (concat (map (call_line BUFFER_SIZE vfmt) (drop (length cs - K) cs)))
           \<and> split_lines (content w fname)
               = map (call_line BUFFER_SIZE vfmt) (drop (length cs - K) cs)
           \<and> length (split_lines (content w fname)) = K
           \<and> cached_lines l = int K"
proof -
  from log_init_keeps[OF assms(1,2,4-8), of K] obtain l0 w1 where
    i: "log_init MAX_FILENAME_LENGTH BUFFER_SIZE e0 fname (int K) w0 = Inr (0, Some l0, w1)"
    and k0: "keeps BUFFER_SIZE K fname [] l0 w1" by blast
  let ?rs = "map (call_line BUFFER_SIZE vfmt) (drop (length cs - K) cs)"
  from log_writes_keeps[OF assms(1,3) k0 assms(9)] obtain l w where
    ws: "log_writes BUFFER_SIZE vfmt (Some l0) cs w1 = Inr (Some l, w)"
    and k: "keeps BUFFER_SIZE K fname ?rs l w"
    by (auto simp: drop_map)
  from k have f: "files w fname = Some (concat ?rs)" and c: "cached_lines l = int (length ?rs)"
    and ln: "\<forall>r \<in> set ?rs. is_line r"
    by (simp_all add: keeps_def)
  from assms(10) have len: "length ?rs = K" by simp
  from f have "content w fname = concat ?rs" by (simp add: content_def)
  with ln have "split_lines (content w fname) = ?rs" by (simp add: split_lines_concat)
  with i ws f c len show ?thesis by simp
qed

text \<open>
  The scenario of the specification: \<^verbatim>\<open>a.log\<close> with the bound 3 and the writes
  \<^verbatim>\<open>one\<close>, \<^verbatim>\<open>two\<close>, \<^verbatim>\<open>three\<close>, \<^verbatim>\<open>four\<close>.
\<close>

theorem log_writes_keep_last_example:
  "log_writes 1024 plain_format (Some (open_log 3 0))
     [(env_ok, ''2024-01-01 00:00:01'', ''one'', ()), (env_ok, ''2024-01-01 00:00:02'', ''two'', ()),
      (env_ok, ''2024-01-01 00:00:03'', ''three'', ()), (env_ok, ''2024-01-01 00:00:04'', ''four'', ())]
     \<lparr>files = [''a.log'' \<mapsto> []], calls = [Fopen ''a.log'' Mode_a_plus]\<rparr>
   = Inr (Some (open_log 3 3),
          \<lparr>files = [''a.log'' \<mapsto> ''[2024-01-01 00:00:02] two\<newline>[2024-01-01 00:00:03] three\<newline>[2024-01-01 00:00:04] four\<newline>''],
           calls = Fopen ''a.log'' Mode_a_plus # pass_calls ''a.log''\<rparr>)"
  using log_writes_keep_last[where BUFFER_SIZE = 1024 and MAX_FILENAME_LENGTH = 256
      and fname = "''a.log''" and ?w0.0 = no_files and ?e0.0 = env_ok and vfmt = plain_format
      and K = 3
      and cs = "[(env_ok, ''2024-01-01 00:00:01'', ''one'', ()),
                 (env_ok, ''2024-01-01 00:00:02'', ''two'', ()),
                 (env_ok, ''2024-01-01 00:00:03'', ''three'', ()),
                 (env_ok, ''2024-01-01 00:00:04'', ''four'', ())]"]
  by (simp add: eval_defs pass_calls_def fun_upd_twist)

text \<open>
  The path \<^verbatim>\<open>tmp.log\<close> is left out for a reason: on a log of that name the pass opens
  the log itself for writing, which empties it, and both records are lost.
\<close>

lemma log_writes_log_named_tmp:
  "log_writes 1024 plain_format
     (Some ((open_log 1 0)\<lparr>filename := ''tmp.log'',
                            file_ptr := Some \<lparr>spath = ''tmp.log'', spos = 0\<rparr>\<rparr>))
     [(env_ok, ''2024-01-01 00:00:01'', ''one'', ()), (env_ok, ''2024-01-01 00:00:02'', ''two'', ())]
     \<lparr>files = [''tmp.log'' \<mapsto> []], calls = []\<rparr>
   = Inr (Some ((open_log 1 1)\<lparr>filename := ''tmp.log'',
                                 file_ptr := Some \<lparr>spath = ''tmp.log'', spos = 0\<rparr>\<rparr>),
          \<lparr>files = [''tmp.log'' \<mapsto> []], calls = pass_calls ''tmp.log''\<rparr>)"
  by (simp add: eval_defs pass_calls_def)

text \<open>
  Where it does not. \<^verbatim>\<open>log_write\<close> writes lines of up to \<open>BUFFER_SIZE + 22\<close>
  characters (22 for the time in brackets, \<open>BUFFER_SIZE - 1\<close> for the message, one for
  the newline) and reads them back through a buffer of \<open>BUFFER_SIZE\<close>. A line longer than
  \<open>BUFFER_SIZE - 1\<close> comes back in two chunks, the loop counts each as a line, and the
  pass cuts the file inside the record.
\<close>

lemma read_line_take:
  "newline \<notin> set xs \<Longrightarrow> k \<le> length xs \<Longrightarrow> read_line k (xs @ ys) = take k xs"
proof (induction xs arbitrary: k)
  case Nil
  then show ?case by simp
next
  case (Cons x xs)
  then show ?case by (cases k) auto
qed

lemma copy_loop_step:
  "2 \<le> n \<Longrightarrow> s \<noteq> [] \<Longrightarrow>
     copy_loop n s i skip tmp =
       copy_loop n (drop (length (read_line (n - 1) s)) s) (i + 1) skip
         (if skip \<le> i then tmp @ read_line (n - 1) s else tmp)"
  by (cases s) (simp_all add: copy_loop_Cons)

lemma copy_loop_long_record:
  assumes n: "25 \<le> n" and p: "length p = 22" "newline \<notin> set p" and c: "c \<noteq> newline"
      and r: "is_line r" "length r \<le> n - 1"
  shows "copy_loop n ((p @ replicate (n - 1) c @ [newline]) @ r) 0 1 []
           = Some (replicate 22 c @ [newline] @ r)"
proof -
  let ?s = "(p @ replicate (n - 1) c @ [newline]) @ r"
  let ?rest = "replicate 22 c @ [newline] @ r"
  have s: "?s = (p @ replicate (n - 1) c) @ (newline # r)" by simp
  from p c have nn: "newline \<notin> set (p @ replicate (n - 1) c)" by auto
  from n p have len: "n - 1 \<le> length (p @ replicate (n - 1) c)" by simp
  have rl: "read_line (n - 1) ?s = take (n - 1) (p @ replicate (n - 1) c)"
    unfolding s by (rule read_line_take[OF nn len])
  from n p have l1: "length (read_line (n - 1) ?s) = n - 1" unfolding rl by simp
  from n p have "drop (n - 1) (p @ replicate (n - 1) c) = replicate 22 c" by simp
  with len have dr: "drop (n - 1) ?s = ?rest" unfolding s by simp
  from n have "copy_loop n ?s 0 1 [] = copy_loop n (drop (n - 1) ?s) 1 1 []"
    using copy_loop_step[of n ?s 0 1 "[]"] l1 by simp
  also have "\<dots> = copy_loop n ?rest 1 1 []" by (simp only: dr)
  also have "\<dots> = Some ?rest"
  proof -
    from c have l: "is_line (replicate 22 c @ [newline])"
      by (simp add: is_line_def)
    with r have sl: "split_lines ?rest = [replicate 22 c @ [newline], r]"
      using split_lines_concat[of "[replicate 22 c @ [newline], r]"] by simp
    with n r have "\<forall>l \<in> set (split_lines ?rest). length l \<le> n - 1" by simp
    from copy_loop_split_lines[OF _ this, of 1 1 "[]"] n sl show ?thesis by simp
  qed
  finally show ?thesis .
qed

lemma trim_format_replicate [simp]:
  "c \<noteq> newline \<Longrightarrow> trim_format (replicate k c) = replicate k c"
  by (cases k) (simp_all add: trim_format_last)

lemma two_writes_long_first:
  assumes n: "25 \<le> n" and t: "length t = 19" "newline \<notin> set t"
      and t2: "length t2 = 19" "newline \<notin> set t2"
  shows "log_writes n plain_format (Some (open_log 1 0))
           [(env_ok, t, replicate (n - 1) CHR ''x'', ()), (env_ok, t2, ''b'', ())]
           \<lparr>files = [''a.log'' \<mapsto> []], calls = cs\<rparr>
         = Inr (Some (open_log 1 1),
                \<lparr>files = [''a.log'' \<mapsto> replicate 22 CHR ''x'' @ [newline] @ log_line t2 ''b''],
                 calls = cs @ pass_calls ''a.log''\<rparr>)"
proof -
  let ?r1 = "(''['' @ t @ ''] '') @ replicate (n - 1) CHR ''x'' @ [newline]"
  let ?l1 = "(open_log 1 1)\<lparr>file_ptr := Some \<lparr>spath = ''a.log'', spos = length ?r1\<rparr>\<rparr>"
  let ?w1 = "\<lparr>files = [''a.log'' \<mapsto> ?r1], calls = cs\<rparr>"
  have first: "log_write n plain_format env_ok t (Some (open_log 1 0))
                 (replicate (n - 1) CHR ''x'') () \<lparr>files = [''a.log'' \<mapsto> []], calls = cs\<rparr>
               = Inr (0, Some ?l1, replicate (n - 1) CHR ''x'', ?w1)"
    by (simp add: log_write_def vsnprintf_def plain_format_def content_def Let_def
          fprintf_append_def log_line_def open_log_def env_ok_def)
  from n have m2: "message n plain_format ''b'' () = ''b''"
    by (simp add: message_take plain_format_def trim_format_last)
  from t2 n have r2: "is_line (log_line t2 ''b'')" "length (log_line t2 ''b'') \<le> n - 1"
    by (simp_all add: is_line_log_line) (simp add: log_line_def)
  from t have p: "length (''['' @ t @ ''] '') = 22" "newline \<notin> set (''['' @ t @ ''] '')"
    by simp_all
  have cp: "copy_loop n (?r1 @ log_line t2 ''b'') 0 1 []
              = Some (replicate 22 CHR ''x'' @ [newline] @ log_line t2 ''b'')"
    by (rule copy_loop_long_record[OF n p _ r2]) simp
  have second: "log_write n plain_format env_ok t2 (Some ?l1) ''b'' () ?w1
               = Inr (0, Some (open_log 1 1), ''b'',
                   \<lparr>files = [''a.log'' \<mapsto> replicate 22 CHR ''x'' @ [newline] @ log_line t2 ''b''],
                    calls = cs @ pass_calls ''a.log''\<rparr>)"
    using cp
    by (simp add: log_write_def m2 Let_def fprintf_append_def open_log_def env_ok_def
          fopen_def swap_files_def rewind_def fs_remove_def fs_rename_def pass_calls_def
          fun_upd_twist content_def)
       (simp add: trim_format_last)
  from first second show ?thesis by simp
qed

text \<open>
  C1, run where it fails. The log is empty, the bound is 1 and \<open>BUFFER_SIZE\<close> is 1024.
  The first message has 1023 characters: it fits the buffer it is formatted into. After
  the second write the file should hold one line, the record of that write. It holds
  two: the last 22 characters of the first message, and the second record.
\<close>

theorem log_writes_long_message:
  "log_init 256 1024 env_ok ''a.log'' 1 no_files
     = Inr (0, Some (open_log 1 0),
            \<lparr>files = [''a.log'' \<mapsto> []], calls = [Fopen ''a.log'' Mode_a_plus]\<rparr>)
   \<and> length (replicate 1023 CHR ''x'') = 1024 - 1
   \<and> log_writes 1024 plain_format (Some (open_log 1 0))
        [(env_ok, ''2024-01-01 00:00:00'', replicate 1023 CHR ''x'', ()),
         (env_ok, ''2024-01-01 00:00:01'', ''b'', ())]
        \<lparr>files = [''a.log'' \<mapsto> []], calls = [Fopen ''a.log'' Mode_a_plus]\<rparr>
     = Inr (Some (open_log 1 1),
            \<lparr>files = [''a.log'' \<mapsto> replicate 22 CHR ''x'' @ ''\<newline>[2024-01-01 00:00:01] b\<newline>''],
             calls = Fopen ''a.log'' Mode_a_plus # pass_calls ''a.log''\<rparr>)
   \<and> split_lines (replicate 22 CHR ''x'' @ ''\<newline>[2024-01-01 00:00:01] b\<newline>'')
     = [replicate 22 CHR ''x'' @ ''\<newline>'', ''[2024-01-01 00:00:01] b\<newline>'']"
proof -
  have "log_init 256 1024 env_ok ''a.log'' 1 no_files
     = Inr (0, Some (open_log 1 0),
            \<lparr>files = [''a.log'' \<mapsto> []], calls = [Fopen ''a.log'' Mode_a_plus]\<rparr>)"
    by (simp add: eval_defs)
  moreover have "log_writes 1024 plain_format (Some (open_log 1 0))
        [(env_ok, ''2024-01-01 00:00:00'', replicate 1023 CHR ''x'', ()),
         (env_ok, ''2024-01-01 00:00:01'', ''b'', ())]
        \<lparr>files = [''a.log'' \<mapsto> []], calls = [Fopen ''a.log'' Mode_a_plus]\<rparr>
     = Inr (Some (open_log 1 1),
            \<lparr>files = [''a.log'' \<mapsto> replicate 22 CHR ''x'' @ ''\<newline>[2024-01-01 00:00:01] b\<newline>''],
             calls = Fopen ''a.log'' Mode_a_plus # pass_calls ''a.log''\<rparr>)"
    using two_writes_long_first[of 1024 "''2024-01-01 00:00:00''" "''2024-01-01 00:00:01''"
        "[Fopen ''a.log'' Mode_a_plus]"]
    by (simp add: log_line_def)
  moreover have "split_lines (replicate 22 CHR ''x'' @ ''\<newline>[2024-01-01 00:00:01] b\<newline>'')
     = [replicate 22 CHR ''x'' @ ''\<newline>'', ''[2024-01-01 00:00:01] b\<newline>'']"
    using split_lines_line[of "replicate 22 CHR ''x''" "''[2024-01-01 00:00:01] b\<newline>''"]
    by simp
  ultimately show ?thesis by simp
qed

end
